theory Spec2Isabelle
  imports Main "HOL-Library.Sublist"
begin

section \<open>The timer service of time-wheel (timer/timer.go)\<close>

text \<open>
  The development embeds \<^verbatim>\<open>timer/timer.go\<close>: the \<^verbatim>\<open>SystemTimer\<close> struct and its
  methods \<^verbatim>\<open>Add\<close>, \<^verbatim>\<open>addTimerTaskEntry\<close>, \<^verbatim>\<open>AdvanceClock\<close>, \<^verbatim>\<open>Size\<close> and
  \<^verbatim>\<open>Shutdown\<close>.  The file calls into code that is not part of the sources at hand
  (the task, the task entry, the bucket \<^verbatim>\<open>TaskList\<close>, the \<^verbatim>\<open>TimingWheel\<close> and the
  package \<^verbatim>\<open>queue\<close>).  Those operations are modelled from the specification; each
  such definition says so in its comment.

  The model is sequential: one call runs to its end before the next one starts, the
  mutex \<^verbatim>\<open>mu\<close> is therefore left out.  Go pointers are addresses (natural numbers)
  into explicit stores, so that a bucket reached from the wake queue is the very
  bucket of the wheel slot, and a cancelled entry is seen as cancelled by whoever
  holds its address.
\<close>

subsection \<open>Time\<close>

text \<open>
  \<^verbatim>\<open>time.Duration\<close> is an \<^verbatim>\<open>int64\<close>; \<open>wrap64\<close> is the wrap-around of an
  \<^verbatim>\<open>int64\<close> addition.  The wall clock is an integer count of nanoseconds, and
  \<^verbatim>\<open>time.Now().Nanosecond()\<close> is the nanosecond offset within the current second,
  a value in \<open>[0, 999999999]\<close>.
\<close>

definition wrap64 :: "int \<Rightarrow> int" where
  "wrap64 x = (x + 2 ^ 63) mod 2 ^ 64 - 2 ^ 63"

definition Nanosecond :: "int \<Rightarrow> int" where
  "Nanosecond now = now mod 1000000000"

text \<open>\<^verbatim>\<open>time.Millisecond\<close>, in nanoseconds.\<close>

definition Millisecond :: int where
  "Millisecond = 1000000"

subsection \<open>Data\<close>

text \<open>
  Modelled from the spec: the task \<^verbatim>\<open>Task\<close> is missing from the sources; timer.go
  reads its field \<^verbatim>\<open>delayMs\<close> and calls its method \<^verbatim>\<open>run()\<close>.  Spec 3: a task is
  immutable, a delay and a zero-argument callback.  The callback is named by a
  number; running it is recorded in the list of started goroutines.
\<close>

record Task =
  delayMs :: int
  action :: nat

text \<open>
  Modelled from the spec: the task entry (spec 3): the owned task, the absolute
  expiration and the cancelled flag.  The links to its bucket are the bucket's list
  of entry addresses.
\<close>

record TaskEntry =
  task :: Task
  expirationMs :: int
  cancelled :: bool

text \<open>
  Modelled from the spec: the bucket (spec 3): the armed expiration, \<open>-1\<close> when
  unarmed, and the linked list of its entries, here the list of their addresses, oldest
  first.
\<close>

record TaskList =
  expiration :: int
  root :: "nat list"

text \<open>
  What the wake queue holds: values of an interface type.  timer.go asserts that a
  polled value is a \<^verbatim>\<open>*TaskList\<close>; \<open>Foreign\<close> stands for a value of any other type.
  A \<^verbatim>\<open>*TaskList\<close> in the queue is the address of a bucket (the wheel offers its
  buckets); a nil pointer of that type is not modelled.
\<close>

datatype Delayed = TaskListPtr nat | Foreign

text \<open>
  Modelled from the spec: one level of the timing wheel (spec 3): the tick, the number
  of slots, the current time, the array of buckets (their addresses) and the overflow
  wheel, created lazily.
\<close>

datatype TimingWheel =
  TimingWheel (tick: int) (slots: int) (currentTime: int) (buckets: "nat list")
    (overflowWheel: "TimingWheel option")

text \<open>
  The struct \<^verbatim>\<open>SystemTimer\<close> of timer.go, field by field (without the mutex).  The
  wake queue is a list of the offered values with the key each was offered under.
\<close>

record SystemTimer =
  tickMs :: int
  wheelSize :: int
  startMs :: int
  delayQueue :: "(int \<times> Delayed) list"
  taskCounter :: int
  timingWheel :: TimingWheel

text \<open>
  The state a call runs in: the timer, the store of task entries and the store of
  buckets with their next free addresses, the actions of the goroutines started so far
  (in the order of their \<^verbatim>\<open>go\<close> statements), and the wall clock.
\<close>

record World =
  timer :: SystemTimer
  taskEntries :: "nat \<Rightarrow> TaskEntry"
  nextEntry :: nat
  taskLists :: "nat \<Rightarrow> TaskList"
  nextList :: nat
  goroutines :: "nat list"
  clock :: int

text \<open>
  How a call ends: it returns, it panics, or it blocks for ever (a wait that nothing
  in a sequential run can end).
\<close>

datatype panic = DidNotFoundTaskList | TypeAssertion

datatype 'a outcome = Returns (returned: 'a) | Panics panic | Blocks

subsection \<open>Task entries and buckets\<close>

text \<open>
  Modelled from the spec: \<^verbatim>\<open>NewTaskEntry(task, expiration)\<close> is missing from the
  sources.  It allocates an entry that is not cancelled and returns its address.
\<close>

definition NewTaskEntry :: "Task \<Rightarrow> int \<Rightarrow> World \<Rightarrow> nat \<times> World" where
  "NewTaskEntry t e w =
     (nextEntry w,
      w\<lparr>taskEntries := (taskEntries w)(nextEntry w := \<lparr>task = t, expirationMs = e, cancelled = False\<rparr>),
        nextEntry := Suc (nextEntry w)\<rparr>)"

text \<open>
  Modelled from the spec: \<^verbatim>\<open>cancel()\<close> (spec 4.1) sets the cancelled flag and does not
  unlink the entry from its bucket.
\<close>

definition cancel :: "nat \<Rightarrow> World \<Rightarrow> World" where
  "cancel a w = w\<lparr>taskEntries := (taskEntries w)(a := (taskEntries w a)\<lparr>cancelled := True\<rparr>)\<rparr>"

text \<open>
  The statement \<^verbatim>\<open>go func() { e.task.run() }()\<close> of timer.go: a goroutine is started
  that runs the action of the entry's task.
\<close>

definition go_run :: "nat \<Rightarrow> World \<Rightarrow> World" where
  "go_run a w = w\<lparr>goroutines := goroutines w @ [action (task (taskEntries w a))]\<rparr>"

text \<open>
  Modelled from the spec: \<^verbatim>\<open>GetDelay()\<close> of a bucket is missing from the sources;
  spec 4.5 has the wheel's clock advanced to the bucket's expiration, so it reads the
  armed expiration.
\<close>

definition GetDelay :: "nat \<Rightarrow> World \<Rightarrow> int" where
  "GetDelay v w = expiration (taskLists w v)"

text \<open>
  Modelled from the spec: \<^verbatim>\<open>flush(visit)\<close> (spec 4.2) detaches all entries, resets the
  bucket to empty and unarmed, then calls \<open>visit\<close> once per detached entry.
\<close>

definition flush :: "nat \<Rightarrow> (nat \<Rightarrow> World \<Rightarrow> World) \<Rightarrow> World \<Rightarrow> World" where
  "flush v visit w =
     fold visit (root (taskLists w v))
       (w\<lparr>taskLists := (taskLists w)(v := \<lparr>expiration = - 1, root = []\<rparr>)\<rparr>)"

subsection \<open>The wake queue\<close>

text \<open>
  Modelled from the spec: the package \<^verbatim>\<open>queue\<close> is missing from the sources.
  Spec 4.3: \<^verbatim>\<open>offer\<close> inserts a value under its key; \<^verbatim>\<open>poll\<close> (here \<^verbatim>\<open>Pop(ctx)\<close>)
  blocks until the expiration of the earliest value has elapsed, which is then removed
  and returned, or until the cancel signal fires, which returns nil.  The signal
  \<open>ctx\<close> is the instant at which the context is done, \<open>None\<close> for a context that is
  never done.  Blocking moves the wall clock to the instant the wait ends.
\<close>

definition offer :: "int \<Rightarrow> Delayed \<Rightarrow> World \<Rightarrow> World" where
  "offer k x w = w\<lparr>timer := (timer w)\<lparr>delayQueue := delayQueue (timer w) @ [(k, x)]\<rparr>\<rparr>"

fun earliest :: "(int \<times> Delayed) list \<Rightarrow> (int \<times> Delayed) option" where
  "earliest [] = None"
| "earliest (p # ps) =
     (case earliest ps of
        None \<Rightarrow> Some p
      | Some q \<Rightarrow> if fst p \<le> fst q then Some p else Some q)"

definition take_out :: "int \<times> Delayed \<Rightarrow> int \<Rightarrow> World \<Rightarrow> World" where
  "take_out p t w =
     w\<lparr>timer := (timer w)\<lparr>delayQueue := remove1 p (delayQueue (timer w))\<rparr>, clock := t\<rparr>"

definition Pop :: "int option \<Rightarrow> World \<Rightarrow> (Delayed option \<times> World) outcome" where
  "Pop ctx w =
     (case earliest (delayQueue (timer w)) of
        None \<Rightarrow>
          (case ctx of
             None \<Rightarrow> Blocks
           | Some d \<Rightarrow> Returns (None, w\<lparr>clock := max (clock w) d\<rparr>))
      | Some p \<Rightarrow>
          if fst p \<le> clock w then Returns (Some (snd p), take_out p (clock w) w)
          else
            (case ctx of
               None \<Rightarrow> Returns (Some (snd p), take_out p (fst p) w)
             | Some d \<Rightarrow>
                 if fst p \<le> d then Returns (Some (snd p), take_out p (fst p) w)
                 else Returns (None, w\<lparr>clock := max (clock w) d\<rparr>)))"

subsection \<open>The timing wheel\<close>

text \<open>
  Modelled from the spec: \<^verbatim>\<open>NewTimingWheel\<close> is missing from the sources.  Spec 3: the
  buckets are allocated once per slot at construction, empty and unarmed; the current
  time is the start time floored to a tick boundary; there is no overflow wheel yet.
  (timer.go passes three more arguments, two zeros and the wake queue; the queue is
  the one of the timer, and the spec gives the zeros no meaning.)  The spec gives no
  meaning to a tick of zero either; the arithmetic is that of the integers, with
  \<open>x mod 0 = x\<close>.
\<close>

definition NewTimingWheel :: "int \<Rightarrow> int \<Rightarrow> int \<Rightarrow> World \<Rightarrow> TimingWheel \<times> World" where
  "NewTimingWheel tk n start w =
     (TimingWheel tk n (start - start mod tk) [nextList w ..< nextList w + nat n] None,
      w\<lparr>taskLists := (\<lambda>v. if nextList w \<le> v \<and> v < nextList w + nat n
                           then \<lparr>expiration = - 1, root = []\<rparr> else taskLists w v),
        nextList := nextList w + nat n\<rparr>)"

text \<open>
  Modelled from the spec: \<^verbatim>\<open>advanceClock(t)\<close> (spec 4.4): if \<open>t\<close> has reached the next
  tick boundary, the current time becomes \<open>t\<close> floored to a tick boundary and the
  advance is forwarded to the overflow wheel, if there is one; otherwise nothing
  changes.
\<close>

fun advanceClock :: "int \<Rightarrow> TimingWheel \<Rightarrow> TimingWheel" where
  "advanceClock t (TimingWheel tk n cur bs ov) =
     (if cur + tk \<le> t
      then TimingWheel tk n (t - t mod tk) bs
             (case ov of None \<Rightarrow> None | Some W \<Rightarrow> Some (advanceClock t W))
      else TimingWheel tk n cur bs ov)"

text \<open>
  Modelled from the spec: \<^verbatim>\<open>add(entry)\<close> of the wheel (spec 4.4).
  \<^enum> A cancelled entry is rejected.
  \<^enum> An entry with \<open>expiration < currentTime + tick\<close> is rejected: it is due.
  \<^enum> An entry with \<open>expiration < currentTime + tick * slots\<close> goes to the bucket of slot
    \<open>floor (expiration / tick) mod slots\<close>; the bucket's expiration is set to the start
    of that slot, \<open>floor (expiration / tick) * tick\<close>, and when this changes it (spec
    4.2, \<^verbatim>\<open>setExpiration\<close>) the bucket is offered to the wake queue.
  \<^enum> Otherwise the overflow wheel is created if absent, with tick \<open>tick * slots\<close> and
    the same number of slots, and the entry is added to it.

  The recursion through overflow wheels need not end (one slot per level never
  widens the window), and a slot index can lie outside an ill-formed bucket array; in
  both cases the call does not return, which is the value \<open>None\<close>.
\<close>

partial_function (option) wheel_add ::
    "nat \<Rightarrow> TimingWheel \<Rightarrow> World \<Rightarrow> (bool \<times> TimingWheel \<times> World) option" where
  "wheel_add a W w =
     (if cancelled (taskEntries w a) then Some (False, W, w)
      else if expirationMs (taskEntries w a) < currentTime W + tick W then Some (False, W, w)
      else if expirationMs (taskEntries w a) < currentTime W + tick W * slots W then
        (let i = nat ((expirationMs (taskEntries w a) div tick W) mod slots W) in
         if i < length (buckets W) then
           (let v = buckets W ! i;
                e = expirationMs (taskEntries w a) div tick W * tick W;
                b = taskLists w v;
                w1 = w\<lparr>taskLists := (taskLists w)(v := \<lparr>expiration = e, root = root b @ [a]\<rparr>)\<rparr>
            in Some (True, W, if expiration b \<noteq> e then offer e (TaskListPtr v) w1 else w1))
         else None)
      else
        (case overflowWheel W of
           Some V \<Rightarrow>
             Option.bind (wheel_add a V w)
               (\<lambda>r. Some (fst r,
                  TimingWheel (tick W) (slots W) (currentTime W) (buckets W) (Some (fst (snd r))),
                  snd (snd r)))
         | None \<Rightarrow>
             Option.bind
               (wheel_add a (fst (NewTimingWheel (tick W * slots W) (slots W) (currentTime W) w))
                  (snd (NewTimingWheel (tick W * slots W) (slots W) (currentTime W) w)))
               (\<lambda>r. Some (fst r,
                  TimingWheel (tick W) (slots W) (currentTime W) (buckets W) (Some (fst (snd r))),
                  snd (snd r)))))"

declare wheel_add.simps [code]

text \<open>
  Modelled from the spec: \<^verbatim>\<open>t.timingWheel.add(taskEntry)\<close>, the \<open>add\<close> of spec 4.4 on
  the root wheel of the timer.
\<close>

definition add :: "nat \<Rightarrow> World \<Rightarrow> (bool \<times> World) option" where
  "add a w =
     (case wheel_add a (timingWheel (timer w)) w of
        None \<Rightarrow> None
      | Some r \<Rightarrow>
          Some (fst r, (snd (snd r))\<lparr>timer := (timer (snd (snd r)))\<lparr>timingWheel := fst (snd r)\<rparr>\<rparr>))"

subsection \<open>The timer service, from timer.go\<close>

text \<open>
  \<^verbatim>\<open>NewSystemTimer(tickMs, wheelSize)\<close>, called at wall-clock time \<open>now\<close>: the start
  time is \<^verbatim>\<open>time.Now().Nanosecond()\<close>, the queue is new, the counter is zero, and the
  wheel is built on that start time.  The stores are empty before the call.
\<close>

definition blank :: "int \<Rightarrow> World" where
  "blank now =
     \<lparr>timer = \<lparr>tickMs = 0, wheelSize = 0, startMs = 0, delayQueue = [], taskCounter = 0,
               timingWheel = TimingWheel 0 0 0 [] None\<rparr>,
      taskEntries = (\<lambda>_. \<lparr>task = \<lparr>delayMs = 0, action = 0\<rparr>, expirationMs = 0, cancelled = False\<rparr>),
      nextEntry = 0,
      taskLists = (\<lambda>_. \<lparr>expiration = - 1, root = []\<rparr>),
      nextList = 0,
      goroutines = [],
      clock = now\<rparr>"

definition NewSystemTimer :: "int \<Rightarrow> int \<Rightarrow> int \<Rightarrow> World" where
  "NewSystemTimer tk n now =
     (let start = Nanosecond now;
          r = NewTimingWheel tk n start (blank now)
      in (snd r)\<lparr>timer := \<lparr>tickMs = tk, wheelSize = n, startMs = start, delayQueue = [],
                            taskCounter = 0, timingWheel = fst r\<rparr>\<rparr>)"

text \<open>
  \<^verbatim>\<open>addTimerTaskEntry\<close>: when the wheel rejects the entry and the entry is not
  cancelled, a goroutine runs its task; nothing else is done.
\<close>

definition addTimerTaskEntry :: "nat \<Rightarrow> World \<Rightarrow> World option" where
  "addTimerTaskEntry a w =
     (case add a w of
        None \<Rightarrow> None
      | Some r \<Rightarrow>
          if \<not> fst r then
            (if \<not> cancelled (taskEntries (snd r) a) then Some (go_run a (snd r))
             else Some (snd r))
          else Some (snd r))"

text \<open>
  \<^verbatim>\<open>Add(task)\<close>: the entry's expiration is
  \<^verbatim>\<open>task.delayMs + time.Duration(time.Now().Nanosecond())\<close>.
\<close>

definition Add :: "Task \<Rightarrow> World \<Rightarrow> World option" where
  "Add t w =
     (let r = NewTaskEntry t (wrap64 (delayMs t + Nanosecond (clock w))) w
      in addTimerTaskEntry (fst r) (snd r))"

text \<open>
  The first two statements of the loop body of \<^verbatim>\<open>AdvanceClock\<close>, for the bucket
  \<open>v\<close>: the wheel's clock is advanced to \<^verbatim>\<open>v.GetDelay()\<close>, then the bucket is
  flushed with a visitor that starts a goroutine running the entry's task.
\<close>

definition process :: "nat \<Rightarrow> World \<Rightarrow> World" where
  "process v w =
     flush v go_run
       (w\<lparr>timer := (timer w)\<lparr>timingWheel :=
             advanceClock (GetDelay v w) (timingWheel (timer w))\<rparr>\<rparr>)"

text \<open>
  The loop of \<^verbatim>\<open>AdvanceClock\<close>, entered with a bucket \<open>v\<close>: the bucket is processed
  and the queue is polled again with the same \<open>ctx\<close>.  A bucket continues the loop,
  nil ends it, and any other value fails the unchecked type assertion
  \<^verbatim>\<open>x.(*TaskList)\<close>.  The first component of the result lists what the polls of the
  loop returned, in order.
\<close>

function drain :: "int option \<Rightarrow> nat \<Rightarrow> World \<Rightarrow> Delayed option list \<times> World outcome" where
  "drain ctx v w =
     (case Pop ctx (process v w) of
        Blocks \<Rightarrow> ([], Blocks)
      | Panics p \<Rightarrow> ([], Panics p)
      | Returns r \<Rightarrow>
          (case fst r of
             None \<Rightarrow> ([None], Returns (snd r))
           | Some (TaskListPtr v') \<Rightarrow>
               apfst (Cons (Some (TaskListPtr v'))) (drain ctx v' (snd r))
           | Some Foreign \<Rightarrow> ([Some Foreign], Panics TypeAssertion)))"
  by pat_completeness auto
termination
proof (relation "measure (\<lambda>(ctx, v, w). length (delayQueue (timer w)))")
  show "wf (measure (\<lambda>(ctx, v, w). length (delayQueue (timer w))))" by simp
next
  fix ctx :: "int option" and v :: nat and w :: World and r :: "Delayed option \<times> World"
    and x :: Delayed and v' :: nat
  let ?w2 = "process v w"
  assume pop: "Pop ctx ?w2 = Returns r" and some: "fst r = Some x" and "x = TaskListPtr v'"
  have in_queue: "earliest q = Some p \<Longrightarrow> p \<in> set q" for q p
    by (induction q arbitrary: p) (auto split: option.splits if_splits)
  have keep: "delayQueue (timer (fold go_run es u)) = delayQueue (timer u)" for es u
    by (induction es arbitrary: u) (simp_all add: go_run_def)
  have same: "delayQueue (timer ?w2) = delayQueue (timer w)"
    by (simp add: process_def flush_def keep)
  from pop some obtain p where p: "earliest (delayQueue (timer ?w2)) = Some p"
    and q: "delayQueue (timer (snd r)) = remove1 p (delayQueue (timer ?w2))"
    by (auto simp: Pop_def take_out_def split: option.splits if_splits)
  have shorter: "y \<in> set ys \<Longrightarrow> length (remove1 y ys) < length ys" for y :: "int \<times> Delayed" and ys
    by (induction ys) auto
  from in_queue [OF p] have "length (remove1 p (delayQueue (timer ?w2))) < length (delayQueue (timer ?w2))"
    by (rule shorter)
  with q same show "((ctx, v', snd r), (ctx, v, w)) \<in> measure (\<lambda>(ctx, v, w). length (delayQueue (timer w)))"
    by simp
qed

text \<open>
  \<^verbatim>\<open>AdvanceClock(ctx)\<close>: the first poll; nil returns false, a bucket enters the loop
  and the call returns true when the loop ends, any other value panics with
  \<^verbatim>\<open>"did not found TaskList"\<close>.  \<open>AdvanceClock_run\<close> also lists what every poll of the
  call returned, in order.
\<close>

definition AdvanceClock_run ::
    "int option \<Rightarrow> World \<Rightarrow> Delayed option list \<times> (bool \<times> World) outcome" where
  "AdvanceClock_run ctx w =
     (case Pop ctx w of
        Blocks \<Rightarrow> ([], Blocks)
      | Panics p \<Rightarrow> ([], Panics p)
      | Returns r \<Rightarrow>
          (case fst r of
             None \<Rightarrow> ([None], Returns (False, snd r))
           | Some (TaskListPtr v) \<Rightarrow>
               (Some (TaskListPtr v) # fst (drain ctx v (snd r)),
                case snd (drain ctx v (snd r)) of
                  Returns w' \<Rightarrow> Returns (True, w')
                | Panics p \<Rightarrow> Panics p
                | Blocks \<Rightarrow> Blocks)
           | Some Foreign \<Rightarrow> ([Some Foreign], Panics DidNotFoundTaskList)))"

definition AdvanceClock :: "int option \<Rightarrow> World \<Rightarrow> (bool \<times> World) outcome" where
  "AdvanceClock ctx w = snd (AdvanceClock_run ctx w)"

definition polls :: "int option \<Rightarrow> World \<Rightarrow> Delayed option list" where
  "polls ctx w = fst (AdvanceClock_run ctx w)"

text \<open>
  Between two calls the wall clock moves on: \<open>wait_until t\<close> is the world at the later
  instant \<open>t\<close>, nothing else having happened.
\<close>

definition wait_until :: "int \<Rightarrow> World \<Rightarrow> World" where
  "wait_until t w = w\<lparr>clock := max (clock w) t\<rparr>"

text \<open>\<^verbatim>\<open>Size()\<close> returns the field \<^verbatim>\<open>taskCounter\<close>.\<close>

definition Size :: "World \<Rightarrow> int" where
  "Size w = taskCounter (timer w)"

text \<open>\<^verbatim>\<open>Shutdown()\<close> has an empty body.\<close>

definition Shutdown :: "World \<Rightarrow> World" where
  "Shutdown w = w"

subsection \<open>Sequences of calls\<close>

text \<open>
  A sequential client: it submits tasks, cancels entries, drives the clock, shuts down
  and lets time pass.  A run ends without a world when a call does not return.
\<close>

datatype call =
  CallAdd Task | CallCancel nat | CallAdvanceClock "int option" | CallShutdown | CallWait int

fun call_step :: "call \<Rightarrow> World \<Rightarrow> World option" where
  "call_step (CallAdd t) w = Add t w"
| "call_step (CallCancel a) w = Some (cancel a w)"
| "call_step (CallAdvanceClock ctx) w =
     (case AdvanceClock ctx w of Returns r \<Rightarrow> Some (snd r) | Panics p \<Rightarrow> None | Blocks \<Rightarrow> None)"
| "call_step CallShutdown w = Some (Shutdown w)"
| "call_step (CallWait t) w = Some (wait_until t w)"

fun calls :: "call list \<Rightarrow> World \<Rightarrow> World option" where
  "calls [] w = Some w"
| "calls (c # cs) w = (case call_step c w of None \<Rightarrow> None | Some w' \<Rightarrow> calls cs w')"

declare drain.simps [simp del]

section \<open>Auxiliary facts\<close>

subsection \<open>The wake queue\<close>

lemma earliest_in: "earliest q = Some p \<Longrightarrow> p \<in> set q"
  by (induction q arbitrary: p) (auto split: option.splits if_splits)

lemma earliest_None: "earliest q = None \<longleftrightarrow> q = []"
  by (cases q) (auto split: option.splits)

lemma earliest_least: "earliest q = Some p \<Longrightarrow> x \<in> set q \<Longrightarrow> fst p \<le> fst x"
proof (induction q arbitrary: p)
  case Nil
  then show ?case by simp
next
  case (Cons y ys)
  show ?case
  proof (cases "earliest ys")
    case None
    then have "ys = []" by (simp add: earliest_None)
    with Cons.prems show ?thesis by auto
  next
    case (Some m)
    from Cons.IH [OF Some] have le: "x \<in> set ys \<Longrightarrow> fst m \<le> fst x" .
    from Cons.prems Some le show ?thesis
      by (auto split: if_splits)
  qed
qed

lemma Pop_no_panic: "Pop ctx w \<noteq> Panics p"
  by (simp add: Pop_def split: option.splits)

text \<open>
  A poll that returns nil has waited until the signal fired, has left everything but
  the wall clock as it was, and nothing queued is due at that instant.
\<close>

lemma Pop_nil:
  assumes "Pop ctx w = Returns (None, w1)"
  shows "w1 = w\<lparr>clock := clock w1\<rparr> \<and> (\<exists>d. ctx = Some d \<and> d \<le> clock w1) \<and> clock w \<le> clock w1 \<and>
     list_all (\<lambda>p. clock w1 < fst p) (delayQueue (timer w))"
proof (cases "earliest (delayQueue (timer w))")
  case None
  then have "delayQueue (timer w) = []" by (simp add: earliest_None)
  with assms None show ?thesis
    by (auto simp: Pop_def split: option.splits)
next
  case (Some p)
  with assms obtain d where d: "ctx = Some d" "\<not> fst p \<le> clock w" "\<not> fst p \<le> d"
    and w1: "w1 = w\<lparr>clock := max (clock w) d\<rparr>"
    by (auto simp: Pop_def split: option.splits if_splits)
  have "clock w1 < fst x" if "x \<in> set (delayQueue (timer w))" for x
    using earliest_least [OF Some that] d w1 by simp
  then have "list_all (\<lambda>p. clock w1 < fst p) (delayQueue (timer w))"
    by (simp add: list_all_iff)
  with d w1 show ?thesis by simp
qed

text \<open>A poll that returns a value has removed the earliest one and changed nothing but
  the queue and the wall clock.\<close>

lemma Pop_some:
  assumes "Pop ctx w = Returns (Some x, w1)"
  shows "\<exists>k. earliest (delayQueue (timer w)) = Some (k, x) \<and>
             w1 = w\<lparr>timer := (timer w)\<lparr>delayQueue := remove1 (k, x) (delayQueue (timer w))\<rparr>,
                    clock := max (clock w) k\<rparr>"
  using assms
  by (auto simp: Pop_def take_out_def max_def split: option.splits if_splits)

subsection \<open>Processing a bucket\<close>

lemma fold_go_run:
  "fold go_run es w = w\<lparr>goroutines := goroutines w @ map (\<lambda>a. action (task (taskEntries w a))) es\<rparr>"
  by (induction es arbitrary: w) (simp_all add: go_run_def)

text \<open>
  What the loop body does to a bucket, in closed form: the wheel's clock is advanced to
  the bucket's expiration, the bucket is left empty and unarmed, and a goroutine has
  been started for every entry it held, in order.  Neither the cancelled flag nor the
  wheel's \<open>add\<close> is consulted.
\<close>

lemma process_eq:
  "process v w =
     w\<lparr>timer := (timer w)\<lparr>timingWheel := advanceClock (expiration (taskLists w v)) (timingWheel (timer w))\<rparr>,
       taskLists := (taskLists w)(v := \<lparr>expiration = - 1, root = []\<rparr>),
       goroutines := goroutines w @ map (\<lambda>a. action (task (taskEntries w a))) (root (taskLists w v))\<rparr>"
  by (simp add: process_def flush_def fold_go_run GetDelay_def)

lemma process_goroutines:
  "goroutines (process v w) =
     goroutines w @ map (\<lambda>a. action (task (taskEntries w a))) (root (taskLists w v))"
  by (simp add: process_eq)

lemma process_frame:
  "process v (w\<lparr>timer := (timer w)\<lparr>delayQueue := q\<rparr>, clock := c\<rparr>) =
     (process v w)\<lparr>timer := (timer (process v w))\<lparr>delayQueue := q\<rparr>, clock := c\<rparr>"
  by (simp add: process_eq)

lemma fold_process_frame:
  "fold process vs (w\<lparr>timer := (timer w)\<lparr>delayQueue := q\<rparr>, clock := c\<rparr>) =
     (fold process vs w)\<lparr>timer := (timer (fold process vs w))\<lparr>delayQueue := q\<rparr>, clock := c\<rparr>"
  by (induction vs arbitrary: w) (simp_all add: process_frame)

lemma fold_process_counter:
  "taskCounter (timer (fold process vs w)) = taskCounter (timer w)"
  by (induction vs arbitrary: w) (simp_all add: process_eq)

subsection \<open>What the wheel's add leaves alone\<close>

lemma wheel_add_frame:
  assumes "wheel_add a W w = Some r"
  shows "taskEntries (snd (snd r)) = taskEntries w \<and> goroutines (snd (snd r)) = goroutines w \<and>
         clock (snd (snd r)) = clock w \<and> nextEntry (snd (snd r)) = nextEntry w \<and>
         taskCounter (timer (snd (snd r))) = taskCounter (timer w)"
  by (rule wheel_add.raw_induct
        [where P = "\<lambda>a W w r. taskEntries (snd (snd r)) = taskEntries w \<and>
           goroutines (snd (snd r)) = goroutines w \<and> clock (snd (snd r)) = clock w \<and>
           nextEntry (snd (snd r)) = nextEntry w \<and>
           taskCounter (timer (snd (snd r))) = taskCounter (timer w)", OF _ assms])
     (auto simp: Let_def offer_def NewTimingWheel_def split: if_splits option.splits bind_splits)

lemma add_frame:
  assumes "add a w = Some r"
  shows "taskEntries (snd r) = taskEntries w \<and> goroutines (snd r) = goroutines w \<and>
         clock (snd r) = clock w \<and> nextEntry (snd r) = nextEntry w \<and>
         taskCounter (timer (snd r)) = taskCounter (timer w)"
  using assms wheel_add_frame [of a "timingWheel (timer w)" w]
  by (auto simp: add_def split: option.splits)

subsection \<open>The loop of AdvanceClock\<close>

text \<open>
  When the loop ends normally, its polls returned buckets and then nil; the world is
  the one obtained by processing those buckets in order, up to the queue and the wall
  clock (which only the polls change); the signal has fired and nothing queued is due.
\<close>

lemma drain_returns:
  assumes "snd (drain ctx v w) = Returns w'"
  shows "\<exists>vs. fst (drain ctx v w) = map (Some \<circ> TaskListPtr) vs @ [None] \<and>
           w' = (fold process (v # vs) w)
                  \<lparr>timer := (timer (fold process (v # vs) w))\<lparr>delayQueue := delayQueue (timer w')\<rparr>,
                    clock := clock w'\<rparr> \<and>
           (\<exists>d. ctx = Some d \<and> d \<le> clock w') \<and>
           list_all (\<lambda>p. clock w' < fst p) (delayQueue (timer w'))"
  using assms
proof (induction ctx v w rule: drain.induct)
  case (1 ctx v w)
  show ?case
  proof (cases "Pop ctx (process v w)")
    case (Returns r)
    show ?thesis
    proof (cases "fst r")
      case None
      with Returns have pop: "Pop ctx (process v w) = Returns (None, snd r)"
        by (metis prod.collapse)
      from Returns None "1.prems" have w': "w' = snd r"
        by (subst (asm) drain.simps) simp
      from Returns None have tr: "fst (drain ctx v w) = map (Some \<circ> TaskListPtr) [] @ [None]"
        by (subst drain.simps) simp
      from Pop_nil [OF pop] w' have eq: "w' = (process v w)\<lparr>clock := clock w'\<rparr>"
        and sig: "\<exists>d. ctx = Some d \<and> d \<le> clock w'"
        and due: "list_all (\<lambda>p. clock w' < fst p) (delayQueue (timer (process v w)))"
        by simp_all
      from eq have q: "delayQueue (timer w') = delayQueue (timer (process v w))"
        by (metis World.select_convs(1) World.surjective World.update_convs(7))
      have "w' = (fold process [v] w)
                  \<lparr>timer := (timer (fold process [v] w))\<lparr>delayQueue := delayQueue (timer w')\<rparr>,
                    clock := clock w'\<rparr>"
        using eq by (simp add: q)
      with tr sig due q show ?thesis by (intro exI [of _ "[]"]) simp
    next
      case (Some x)
      show ?thesis
      proof (cases x)
        case (TaskListPtr v')
        from Returns Some TaskListPtr have unf:
          "drain ctx v w = apfst (Cons (Some (TaskListPtr v'))) (drain ctx v' (snd r))"
          by (subst drain.simps) simp
        with "1.prems" have "snd (drain ctx v' (snd r)) = Returns w'"
          by (simp add: apfst_def map_prod_def split_beta)
        from "1.IH" [OF Returns Some TaskListPtr this] obtain vs where
          tr: "fst (drain ctx v' (snd r)) = map (Some \<circ> TaskListPtr) vs @ [None]"
          and eq: "w' = (fold process (v' # vs) (snd r))
                  \<lparr>timer := (timer (fold process (v' # vs) (snd r)))\<lparr>delayQueue := delayQueue (timer w')\<rparr>,
                    clock := clock w'\<rparr>"
          and rest: "(\<exists>d. ctx = Some d \<and> d \<le> clock w')"
             "list_all (\<lambda>p. clock w' < fst p) (delayQueue (timer w'))"
          by blast
        from Returns Some TaskListPtr have "Pop ctx (process v w) = Returns (Some (TaskListPtr v'), snd r)"
          by (metis prod.collapse)
        from Pop_some [OF this] obtain k where
          r: "snd r = (process v w)\<lparr>timer := (timer (process v w))
                  \<lparr>delayQueue := remove1 (k, TaskListPtr v') (delayQueue (timer (process v w)))\<rparr>,
                    clock := max (clock (process v w)) k\<rparr>"
          by blast
        have "fold process (v' # vs) (snd r) =
                (fold process (v' # vs) (process v w))
                  \<lparr>timer := (timer (fold process (v' # vs) (process v w)))
                      \<lparr>delayQueue := remove1 (k, TaskListPtr v') (delayQueue (timer (process v w)))\<rparr>,
                    clock := max (clock (process v w)) k\<rparr>"
          by (subst r) (rule fold_process_frame)
        with eq have "w' = (fold process (v # v' # vs) w)
                  \<lparr>timer := (timer (fold process (v # v' # vs) w))\<lparr>delayQueue := delayQueue (timer w')\<rparr>,
                    clock := clock w'\<rparr>"
          by simp
        moreover from unf tr have "fst (drain ctx v w) = map (Some \<circ> TaskListPtr) (v' # vs) @ [None]"
          by (simp add: apfst_def map_prod_def split_beta)
        ultimately show ?thesis using rest by blast
      next
        case Foreign
        with Returns Some "1.prems" show ?thesis by (subst (asm) drain.simps) simp
      qed
    qed
  next
    case (Panics p)
    then show ?thesis by (simp add: Pop_no_panic)
  next
    case Blocks
    with "1.prems" show ?thesis by (subst (asm) drain.simps) simp
  qed
qed

text \<open>The loop panics exactly when one of its polls returned a value that is not a bucket.\<close>

lemma drain_panics_iff:
  "(\<exists>p. snd (drain ctx v w) = Panics p) \<longleftrightarrow> Some Foreign \<in> set (fst (drain ctx v w))"
proof (induction ctx v w rule: drain.induct)
  case (1 ctx v w)
  show ?case
  proof (cases "Pop ctx (process v w)")
    case (Returns r)
    show ?thesis
    proof (cases "fst r")
      case None
      with Returns show ?thesis by (subst (1 2) drain.simps) simp
    next
      case (Some x)
      show ?thesis
      proof (cases x)
        case (TaskListPtr v')
        from "1.IH" [OF Returns Some TaskListPtr] Returns Some TaskListPtr show ?thesis
          by (subst (1 2) drain.simps) (simp add: apfst_def map_prod_def split_beta)
      next
        case Foreign
        with Returns Some show ?thesis by (subst (1 2) drain.simps) simp
      qed
    qed
  next
    case (Panics p)
    then show ?thesis by (simp add: Pop_no_panic)
  next
    case Blocks
    then show ?thesis by (subst (1 2) drain.simps) simp
  qed
qed


section \<open>Submission\<close>

subsection \<open>An entry the wheel rejects\<close>

text \<open>
  Claim C5.  For every task entry that the wheel's \<open>add\<close> rejects at submission: if
  the entry is not cancelled, a goroutine running its action is started at once; if
  the entry is cancelled, nothing further is done; in both cases
  \<^verbatim>\<open>addTimerTaskEntry\<close> returns normally, and apart from the started goroutine the
  world is the one \<open>add\<close> left.
\<close>

theorem addTimerTaskEntry_rejected:
  assumes "add a w = Some (False, w')"
  shows "addTimerTaskEntry a w =
           Some (if cancelled (taskEntries w a) then w'
                 else w'\<lparr>goroutines := goroutines w @ [action (task (taskEntries w a))]\<rparr>)"
  using assms add_frame [OF assms] by (simp add: addTimerTaskEntry_def go_run_def)

text \<open>
  The theorem at work on a fresh timer (tick 1 ms, 20 slots) and an entry with delay
  zero: the wheel rejects it and its action 7 is started; once cancelled, the same
  entry is rejected and nothing is started.
\<close>

theorem addTimerTaskEntry_rejected_witness:
  "add 0 (snd (NewTaskEntry \<lparr>delayMs = 0, action = 7\<rparr> 0 (NewSystemTimer Millisecond 20 0))) =
     Some (False,
       snd (the (add 0 (snd (NewTaskEntry \<lparr>delayMs = 0, action = 7\<rparr> 0 (NewSystemTimer Millisecond 20 0)))))) \<and>
   map_option goroutines
     (addTimerTaskEntry 0 (snd (NewTaskEntry \<lparr>delayMs = 0, action = 7\<rparr> 0 (NewSystemTimer Millisecond 20 0)))) =
     Some [7] \<and>
   add 0 (cancel 0 (snd (NewTaskEntry \<lparr>delayMs = 0, action = 7\<rparr> 0 (NewSystemTimer Millisecond 20 0)))) =
     Some (False,
       snd (the (add 0
         (cancel 0 (snd (NewTaskEntry \<lparr>delayMs = 0, action = 7\<rparr> 0 (NewSystemTimer Millisecond 20 0))))))) \<and>
   map_option goroutines
     (addTimerTaskEntry 0
        (cancel 0 (snd (NewTaskEntry \<lparr>delayMs = 0, action = 7\<rparr> 0 (NewSystemTimer Millisecond 20 0))))) =
     Some []"
proof -
  let ?W = "snd (NewTaskEntry \<lparr>delayMs = 0, action = 7\<rparr> 0 (NewSystemTimer Millisecond 20 0))"
  have "case add 0 ?W of None \<Rightarrow> False | Some r \<Rightarrow> \<not> fst r" by code_simp
  then have h: "add 0 ?W = Some (False, snd (the (add 0 ?W)))"
    by (cases "add 0 ?W") auto
  have "case add 0 (cancel 0 ?W) of None \<Rightarrow> False | Some r \<Rightarrow> \<not> fst r" by code_simp
  then have h': "add 0 (cancel 0 ?W) = Some (False, snd (the (add 0 (cancel 0 ?W))))"
    by (cases "add 0 (cancel 0 ?W)") auto
  have e: "\<not> cancelled (taskEntries ?W 0)" "action (task (taskEntries ?W 0)) = 7" "goroutines ?W = []"
    "cancelled (taskEntries (cancel 0 ?W) 0)" "goroutines (cancel 0 ?W) = []"
    by code_simp+
  from addTimerTaskEntry_rejected [OF h] addTimerTaskEntry_rejected [OF h'] h h' e add_frame [OF h']
  show ?thesis by simp
qed

text \<open>
  Zero and negative delays take this path whenever the computed expiration lies within
  the wheel's current tick: \<^verbatim>\<open>Add\<close> then allocates the entry and starts its action,
  and changes nothing else.
\<close>

lemma Add_due_dispatches:
  assumes "Nanosecond (clock w) + delayMs t <
             currentTime (timingWheel (timer w)) + tick (timingWheel (timer w))"
    and "- (2 ^ 63) \<le> delayMs t + Nanosecond (clock w)" and "delayMs t + Nanosecond (clock w) < 2 ^ 63"
  shows "Add t w =
           Some (w\<lparr>taskEntries := (taskEntries w)(nextEntry w :=
                      \<lparr>task = t, expirationMs = delayMs t + Nanosecond (clock w), cancelled = False\<rparr>),
                   nextEntry := Suc (nextEntry w),
                   goroutines := goroutines w @ [action t]\<rparr>)"
proof -
  from assms(2,3) have wr: "wrap64 (delayMs t + Nanosecond (clock w)) = delayMs t + Nanosecond (clock w)"
    by (simp add: wrap64_def)
  show ?thesis
    using assms(1)
    by (simp add: Add_def NewTaskEntry_def addTimerTaskEntry_def add_def wheel_add.simps wr go_run_def
        add.commute)
qed

subsection \<open>The expiration of a submitted entry\<close>

text \<open>
  The entry that \<^verbatim>\<open>Add\<close> allocates carries the task and the expiration
  \<open>delayMs + Nanosecond now\<close>, wrapped to 64 bits: the delay is added to the nanosecond
  offset within the current second, not to a full timestamp.
\<close>

lemma Add_expiration:
  assumes "Add t w = Some w'"
  shows "expirationMs (taskEntries w' (nextEntry w)) = wrap64 (delayMs t + Nanosecond (clock w)) \<and>
         task (taskEntries w' (nextEntry w)) = t"
proof -
  let ?r = "NewTaskEntry t (wrap64 (delayMs t + Nanosecond (clock w))) w"
  from assms have a: "addTimerTaskEntry (fst ?r) (snd ?r) = Some w'"
    by (simp add: Add_def Let_def)
  then obtain r where r: "add (fst ?r) (snd ?r) = Some r"
    and w': "w' = snd r \<or> w' = go_run (fst ?r) (snd r)"
    by (auto simp: addTimerTaskEntry_def split: option.splits if_splits)
  from add_frame [OF r] have "taskEntries (snd r) = taskEntries (snd ?r)" by simp
  with w' have "taskEntries w' = taskEntries (snd ?r)" by (auto simp: go_run_def)
  then show ?thesis by (simp add: NewTaskEntry_def)
qed

text \<open>
  Claim C4 (the expiration is \<open>now + d\<close> for a full timestamp \<open>now\<close>, so a later
  submission with an equal or larger delay never gets a smaller expiration) fails on
  the code.  A timer with tick 1 ms and 20 slots; a task with delay 1 ms is submitted
  at wall-clock time 900 ms and another one with the same delay at 1100 ms.  The first
  entry gets the expiration 901 ms, the second, submitted 200 ms later, gets 101 ms.
\<close>

theorem Add_later_submission_expires_earlier:
  "case Add \<lparr>delayMs = Millisecond, action = 1\<rparr>
          (wait_until (900 * Millisecond) (NewSystemTimer Millisecond 20 0)) of
     None \<Rightarrow> False
   | Some w1 \<Rightarrow>
      (case Add \<lparr>delayMs = Millisecond, action = 2\<rparr> (wait_until (1100 * Millisecond) w1) of
         None \<Rightarrow> False
       | Some w2 \<Rightarrow>
           clock w1 = 900 * Millisecond \<and> clock w2 = 1100 * Millisecond \<and>
           expirationMs (taskEntries w2 0) = 901 * Millisecond \<and>
           expirationMs (taskEntries w2 1) = 101 * Millisecond)"
  by code_simp

section \<open>Driving the clock\<close>

subsection \<open>A first poll that returns nothing\<close>

text \<open>
  Claim C9.  If the first poll of \<^verbatim>\<open>AdvanceClock\<close> returns no bucket, the call returns
  false and leaves the timer as it was: the struct (wheel with its current time,
  counter, queue), every bucket and every entry are unchanged, and no goroutine is
  started.  (Only the wall clock has moved, to the instant the poll gave up.)
\<close>

theorem AdvanceClock_nil_poll:
  assumes "Pop ctx w = Returns (None, w1)"
  shows "AdvanceClock ctx w = Returns (False, w1) \<and> timer w1 = timer w \<and>
         taskLists w1 = taskLists w \<and> taskEntries w1 = taskEntries w \<and>
         goroutines w1 = goroutines w"
proof -
  from Pop_nil [OF assms] have "w1 = w\<lparr>clock := clock w1\<rparr>" by simp
  then have "timer w1 = timer w \<and> taskLists w1 = taskLists w \<and> taskEntries w1 = taskEntries w \<and>
         goroutines w1 = goroutines w"
    by (metis World.select_convs World.surjective World.update_convs)
  with assms show ?thesis by (simp add: AdvanceClock_def AdvanceClock_run_def)
qed

text \<open>
  The theorem at work: a task with delay 5 ms is pending and the signal fires at 3 ms.
  The poll gives up at 3 ms, \<^verbatim>\<open>AdvanceClock\<close> returns false, and the entry is still in
  its bucket.
\<close>

theorem AdvanceClock_nil_poll_witness:
  "delayQueue (timer (the (Add \<lparr>delayMs = 5 * Millisecond, action = 7\<rparr> (NewSystemTimer Millisecond 20 0)))) =
     [(5 * Millisecond, TaskListPtr 5)] \<and>
   Pop (Some (3 * Millisecond))
       (the (Add \<lparr>delayMs = 5 * Millisecond, action = 7\<rparr> (NewSystemTimer Millisecond 20 0))) =
     Returns (None, wait_until (3 * Millisecond)
       (the (Add \<lparr>delayMs = 5 * Millisecond, action = 7\<rparr> (NewSystemTimer Millisecond 20 0)))) \<and>
   AdvanceClock (Some (3 * Millisecond))
       (the (Add \<lparr>delayMs = 5 * Millisecond, action = 7\<rparr> (NewSystemTimer Millisecond 20 0))) =
     Returns (False, wait_until (3 * Millisecond)
       (the (Add \<lparr>delayMs = 5 * Millisecond, action = 7\<rparr> (NewSystemTimer Millisecond 20 0)))) \<and>
   root (taskLists (wait_until (3 * Millisecond)
       (the (Add \<lparr>delayMs = 5 * Millisecond, action = 7\<rparr> (NewSystemTimer Millisecond 20 0)))) 5) = [0]"
proof -
  let ?W = "the (Add \<lparr>delayMs = 5 * Millisecond, action = 7\<rparr> (NewSystemTimer Millisecond 20 0))"
  have q: "delayQueue (timer ?W) = [(5 * Millisecond, TaskListPtr 5)]" and c: "clock ?W = 0"
    and b: "root (taskLists ?W 5) = [0]"
    by code_simp+
  have t: "\<not> 5 * Millisecond \<le> 0" "\<not> 5 * Millisecond \<le> 3 * Millisecond"
    by (simp_all add: Millisecond_def)
  have h: "Pop (Some (3 * Millisecond)) ?W = Returns (None, wait_until (3 * Millisecond) ?W)"
    by (simp add: Pop_def wait_until_def q c t)
  from AdvanceClock_nil_poll [OF h] h q b show ?thesis by simp
qed

subsection \<open>Panics\<close>

text \<open>
  Claim C8.  \<^verbatim>\<open>AdvanceClock\<close> panics if and only if one of its polls returned a value
  that is neither nil nor a bucket; as long as every poll returns nil or a bucket, the
  call does not panic.  (The operations modelled from the specification return
  normally.)
\<close>

theorem AdvanceClock_panics_iff:
  "(\<exists>p. AdvanceClock ctx w = Panics p) \<longleftrightarrow> Some Foreign \<in> set (polls ctx w)"
proof (cases "Pop ctx w")
  case (Returns r)
  show ?thesis
  proof (cases "fst r")
    case None
    with Returns show ?thesis by (simp add: AdvanceClock_def polls_def AdvanceClock_run_def)
  next
    case (Some x)
    show ?thesis
    proof (cases x)
      case (TaskListPtr v)
      with Returns Some drain_panics_iff [of ctx v "snd r"] show ?thesis
        by (auto simp: AdvanceClock_def polls_def AdvanceClock_run_def split: outcome.splits)
    next
      case Foreign
      with Returns Some show ?thesis by (simp add: AdvanceClock_def polls_def AdvanceClock_run_def)
    qed
  qed
next
  case (Panics p)
  then show ?thesis by (simp add: Pop_no_panic)
next
  case Blocks
  then show ?thesis by (simp add: AdvanceClock_def polls_def AdvanceClock_run_def)
qed

text \<open>
  Both directions on concrete queues.  A foreign value alone in the queue is returned by
  the first poll, and the call panics.  A foreign value behind a due bucket is
  returned by the second poll, inside the loop, and the call panics.  With the bucket
  alone the polls return the bucket and nil, and the call does not panic.
\<close>

theorem AdvanceClock_panics_iff_witness:
  "polls (Some 0) (offer 0 Foreign (NewSystemTimer Millisecond 20 0)) = [Some Foreign] \<and>
   (\<exists>p. AdvanceClock (Some 0) (offer 0 Foreign (NewSystemTimer Millisecond 20 0)) = Panics p) \<and>
   polls (Some (6 * Millisecond))
     (offer (6 * Millisecond) Foreign
        (the (Add \<lparr>delayMs = 5 * Millisecond, action = 7\<rparr> (NewSystemTimer Millisecond 20 0)))) =
     [Some (TaskListPtr 5), Some Foreign] \<and>
   (\<exists>p. AdvanceClock (Some (6 * Millisecond))
     (offer (6 * Millisecond) Foreign
        (the (Add \<lparr>delayMs = 5 * Millisecond, action = 7\<rparr> (NewSystemTimer Millisecond 20 0)))) = Panics p) \<and>
   polls (Some (6 * Millisecond))
     (the (Add \<lparr>delayMs = 5 * Millisecond, action = 7\<rparr> (NewSystemTimer Millisecond 20 0))) =
     [Some (TaskListPtr 5), None] \<and>
   (\<nexists>p. AdvanceClock (Some (6 * Millisecond))
     (the (Add \<lparr>delayMs = 5 * Millisecond, action = 7\<rparr> (NewSystemTimer Millisecond 20 0))) = Panics p)"
proof -
  let ?A = "offer 0 Foreign (NewSystemTimer Millisecond 20 0)"
  let ?W = "the (Add \<lparr>delayMs = 5 * Millisecond, action = 7\<rparr> (NewSystemTimer Millisecond 20 0))"
  let ?B = "offer (6 * Millisecond) Foreign ?W"
  have a: "polls (Some 0) ?A = [Some Foreign]" by code_simp
  have b: "polls (Some (6 * Millisecond)) ?B = [Some (TaskListPtr 5), Some Foreign]" by code_simp
  have c: "polls (Some (6 * Millisecond)) ?W = [Some (TaskListPtr 5), None]" by code_simp
  from a b c AdvanceClock_panics_iff [of "Some 0" ?A]
    AdvanceClock_panics_iff [of "Some (6 * Millisecond)" ?B]
    AdvanceClock_panics_iff [of "Some (6 * Millisecond)" ?W]
  show ?thesis by simp
qed


subsection \<open>The polls after the first bucket\<close>

text \<open>
  What a call that returns has done.  Its polls returned the buckets \<open>vs\<close>, in order,
  and then nil; the world is the one obtained by processing these buckets in order
  (\<open>process\<close> is the advance of the wheel's clock followed by the flush, see
  \<open>process_eq\<close>), up to the queue and the wall clock, which only the polls change.
  The call returns true exactly when \<open>vs\<close> is not empty, and it returns only once
  the cancel signal has fired and no queued value is due.
\<close>

lemma AdvanceClock_trace:
  assumes "AdvanceClock ctx w = Returns (b, w')"
  shows "\<exists>vs. polls ctx w = map (Some \<circ> TaskListPtr) vs @ [None] \<and> b = (vs \<noteq> []) \<and>
           w' = (fold process vs w)
                  \<lparr>timer := (timer (fold process vs w))\<lparr>delayQueue := delayQueue (timer w')\<rparr>,
                    clock := clock w'\<rparr> \<and>
           (\<exists>d. ctx = Some d \<and> d \<le> clock w') \<and>
           list_all (\<lambda>p. clock w' < fst p) (delayQueue (timer w'))"
proof (cases "Pop ctx w")
  case (Returns r)
  show ?thesis
  proof (cases "fst r")
    case None
    with Returns have pop: "Pop ctx w = Returns (None, snd r)" by (metis prod.collapse)
    from Returns None assms have b: "b = False" and w': "w' = snd r"
      by (simp_all add: AdvanceClock_def AdvanceClock_run_def)
    from Returns None have tr: "polls ctx w = map (Some \<circ> TaskListPtr) [] @ [None]"
      by (simp add: polls_def AdvanceClock_run_def)
    from Pop_nil [OF pop] w' have eq: "w' = w\<lparr>clock := clock w'\<rparr>"
      and sig: "\<exists>d. ctx = Some d \<and> d \<le> clock w'"
      and due: "list_all (\<lambda>p. clock w' < fst p) (delayQueue (timer w))"
      by simp_all
    from eq have q: "delayQueue (timer w') = delayQueue (timer w)"
      by (metis World.select_convs(1) World.surjective World.update_convs(7))
    have "w' = (fold process [] w)
                \<lparr>timer := (timer (fold process [] w))\<lparr>delayQueue := delayQueue (timer w')\<rparr>,
                  clock := clock w'\<rparr>"
      using eq by (simp add: q)
    with tr sig due q b show ?thesis by (intro exI [of _ "[]"]) simp
  next
    case (Some x)
    show ?thesis
    proof (cases x)
      case (TaskListPtr v)
      with Returns Some assms have b: "b = True" and d: "snd (drain ctx v (snd r)) = Returns w'"
        by (auto simp: AdvanceClock_def AdvanceClock_run_def split: outcome.splits)
      from drain_returns [OF d] obtain vs where
        tr: "fst (drain ctx v (snd r)) = map (Some \<circ> TaskListPtr) vs @ [None]"
        and eq: "w' = (fold process (v # vs) (snd r))
                \<lparr>timer := (timer (fold process (v # vs) (snd r)))\<lparr>delayQueue := delayQueue (timer w')\<rparr>,
                  clock := clock w'\<rparr>"
        and rest: "(\<exists>d. ctx = Some d \<and> d \<le> clock w')"
           "list_all (\<lambda>p. clock w' < fst p) (delayQueue (timer w'))"
        by blast
      from Returns Some TaskListPtr have "Pop ctx w = Returns (Some (TaskListPtr v), snd r)"
        by (metis prod.collapse)
      from Pop_some [OF this] obtain k where
        r: "snd r = w\<lparr>timer := (timer w)\<lparr>delayQueue := remove1 (k, TaskListPtr v) (delayQueue (timer w))\<rparr>,
                  clock := max (clock w) k\<rparr>"
        by blast
      have "fold process (v # vs) (snd r) =
              (fold process (v # vs) w)
                \<lparr>timer := (timer (fold process (v # vs) w))
                    \<lparr>delayQueue := remove1 (k, TaskListPtr v) (delayQueue (timer w))\<rparr>,
                  clock := max (clock w) k\<rparr>"
        by (subst r) (rule fold_process_frame)
      with eq have "w' = (fold process (v # vs) w)
                \<lparr>timer := (timer (fold process (v # vs) w))\<lparr>delayQueue := delayQueue (timer w')\<rparr>,
                  clock := clock w'\<rparr>"
        by simp
      moreover from Returns Some TaskListPtr tr
      have "polls ctx w = map (Some \<circ> TaskListPtr) (v # vs) @ [None]"
        by (simp add: polls_def AdvanceClock_run_def)
      ultimately show ?thesis using rest b by blast
    next
      case Foreign
      with Returns Some assms show ?thesis by (simp add: AdvanceClock_def AdvanceClock_run_def)
    qed
  qed
next
  case (Panics p)
  then show ?thesis by (simp add: Pop_no_panic)
next
  case Blocks
  with assms show ?thesis by (simp add: AdvanceClock_def AdvanceClock_run_def)
qed

text \<open>
  Claim C6 (after the first bucket, \<^verbatim>\<open>AdvanceClock\<close> drains the buckets that are
  already ready with non-blocking polls and never blocks the caller again within the
  same call) fails on the code: the loop polls with the same blocking \<^verbatim>\<open>Pop(ctx)\<close> as
  the first poll (timer.go, line 95), and does so with the write lock taken in line 86
  still held, while the comment above the function confines the wait to the case that
  no bucket is expired when it is called.  Two tasks with delays 5 ms and 10 ms are
  pending at time 0 and the signal fires at 100 ms.  The first poll returns the bucket
  of slot 5 at 5 ms, when the only other queued bucket is due at 10 ms, so nothing else
  is ready.  The call nevertheless waits for that bucket, handles it, waits on for the
  signal and returns at 100 ms, having made three polls.  With a signal that never
  fires the call does not return at all.
\<close>

theorem AdvanceClock_blocks_again:
  "case Option.bind (Add \<lparr>delayMs = 5 * Millisecond, action = 1\<rparr> (NewSystemTimer Millisecond 20 0))
          (Add \<lparr>delayMs = 10 * Millisecond, action = 2\<rparr>) of
     None \<Rightarrow> False
   | Some w \<Rightarrow>
       clock w = 0 \<and>
       (case Pop (Some (100 * Millisecond)) w of
          Returns r \<Rightarrow>
            fst r = Some (TaskListPtr 5) \<and> clock (snd r) = 5 * Millisecond \<and>
            delayQueue (timer (snd r)) = [(10 * Millisecond, TaskListPtr 10)]
        | Panics p \<Rightarrow> False
        | Blocks \<Rightarrow> False) \<and>
       (case AdvanceClock (Some (100 * Millisecond)) w of
          Returns r \<Rightarrow>
            fst r \<and> clock (snd r) = 100 * Millisecond \<and> goroutines (snd r) = [1, 2] \<and>
            delayQueue (timer (snd r)) = []
        | Panics p \<Rightarrow> False
        | Blocks \<Rightarrow> False) \<and>
       polls (Some (100 * Millisecond)) w = [Some (TaskListPtr 5), Some (TaskListPtr 10), None] \<and>
       (case AdvanceClock None w of Returns r \<Rightarrow> False | Panics p \<Rightarrow> False | Blocks \<Rightarrow> True)"
  by code_simp

subsection \<open>What a flush does with the entries\<close>

text \<open>
  Claim C1 (each entry detached by the flush is re-offered to the wheel's \<open>add\<close>, and
  only entries that \<open>add\<close> rejects and that are not cancelled are dispatched) fails on
  the code: the visitor that \<^verbatim>\<open>AdvanceClock\<close> passes to \<^verbatim>\<open>flush\<close> starts the task's
  goroutine at once.  A timer with tick 1 ms and 20 slots; a task with delay 25 ms is
  submitted at time 0 and lands in the overflow wheel, in the bucket (address 21) armed
  for 20 ms.  \<^verbatim>\<open>AdvanceClock\<close> with the signal at 20 ms returns true at 20 ms with the
  action started, 5 ms before the entry's expiration; offered to \<open>add\<close> in that
  world, the entry, which is not cancelled, is accepted and placed in slot 5 of the
  base wheel.
\<close>

theorem flushed_entry_runs_without_add:
  "case Add \<lparr>delayMs = 25 * Millisecond, action = 7\<rparr> (NewSystemTimer Millisecond 20 0) of
     None \<Rightarrow> False
   | Some w \<Rightarrow>
       delayQueue (timer w) = [(20 * Millisecond, TaskListPtr 21)] \<and> root (taskLists w 21) = [0] \<and>
       expirationMs (taskEntries w 0) = 25 * Millisecond \<and> goroutines w = [] \<and>
       (case AdvanceClock (Some (20 * Millisecond)) w of
          Returns r \<Rightarrow>
            fst r \<and> clock (snd r) = 20 * Millisecond \<and> goroutines (snd r) = [7] \<and>
            currentTime (timingWheel (timer (snd r))) = 20 * Millisecond \<and>
            \<not> cancelled (taskEntries (snd r) 0) \<and>
            (case add 0 (snd r) of
               None \<Rightarrow> False
             | Some r' \<Rightarrow> fst r' \<and> root (taskLists (snd r') 5) = [0])
        | Panics p \<Rightarrow> False
        | Blocks \<Rightarrow> False)"
  by code_simp

text \<open>
  Claim C2 (when an entry is cancelled before its bucket is flushed, its action is never
  invoked) fails on the code, for the same reason: the visitor does not look at the
  cancelled flag.  A task with delay 5 ms is submitted at time 0 and its entry is
  cancelled: the entry stays in the bucket of slot 5 with the flag set.
  \<^verbatim>\<open>AdvanceClock\<close> with the signal at 5 ms polls that bucket, flushes it, and the action
  is started.
\<close>

theorem cancelled_entry_runs_on_flush:
  "case Add \<lparr>delayMs = 5 * Millisecond, action = 7\<rparr> (NewSystemTimer Millisecond 20 0) of
     None \<Rightarrow> False
   | Some w \<Rightarrow>
       goroutines w = [] \<and> root (taskLists (cancel 0 w) 5) = [0] \<and>
       cancelled (taskEntries (cancel 0 w) 0) \<and>
       polls (Some (5 * Millisecond)) (cancel 0 w) = [Some (TaskListPtr 5), None] \<and>
       (case AdvanceClock (Some (5 * Millisecond)) (cancel 0 w) of
          Returns r \<Rightarrow> fst r \<and> cancelled (taskEntries (snd r) 0) \<and> goroutines (snd r) = [7]
        | Panics p \<Rightarrow> False
        | Blocks \<Rightarrow> False)"
  by code_simp

section \<open>The live counter\<close>

text \<open>No call writes the field \<^verbatim>\<open>taskCounter\<close>: \<^verbatim>\<open>Size()\<close> is the same after every run.\<close>

lemma Add_counter:
  assumes "Add t w = Some w'"
  shows "taskCounter (timer w') = taskCounter (timer w)"
proof -
  let ?r = "NewTaskEntry t (wrap64 (delayMs t + Nanosecond (clock w))) w"
  from assms have a: "addTimerTaskEntry (fst ?r) (snd ?r) = Some w'"
    by (simp add: Add_def Let_def)
  then obtain r where r: "add (fst ?r) (snd ?r) = Some r"
    and w': "w' = snd r \<or> w' = go_run (fst ?r) (snd r)"
    by (auto simp: addTimerTaskEntry_def split: option.splits if_splits)
  from add_frame [OF r] have "taskCounter (timer (snd r)) = taskCounter (timer (snd ?r))" by simp
  with w' have "taskCounter (timer w') = taskCounter (timer (snd ?r))" by (auto simp: go_run_def)
  then show ?thesis by (simp add: NewTaskEntry_def)
qed

text \<open>
  The same holds for whole runs: whatever a sequential client does with a new timer,
  \<^verbatim>\<open>Size()\<close> is 0 afterwards.
\<close>

lemma Pop_counter:
  "Pop ctx w = Returns r \<Longrightarrow> taskCounter (timer (snd r)) = taskCounter (timer w)"
  by (auto simp: Pop_def take_out_def split: option.splits if_splits)

lemma drain_counter:
  assumes "snd (drain ctx v w) = Returns w'"
  shows "taskCounter (timer w') = taskCounter (timer w)"
proof -
  from drain_returns [OF assms] obtain vs where
    "w' = (fold process (v # vs) w)
            \<lparr>timer := (timer (fold process (v # vs) w))\<lparr>delayQueue := delayQueue (timer w')\<rparr>,
              clock := clock w'\<rparr>"
    by blast
  then have "taskCounter (timer w') = taskCounter (timer (fold process (v # vs) w))"
    by (metis SystemTimer.select_convs(5) SystemTimer.surjective SystemTimer.update_convs(4)
        World.select_convs(1) World.surjective World.update_convs(1) World.update_convs(7))
  then show ?thesis by (simp only: fold_process_counter)
qed

lemma AdvanceClock_counter:
  assumes "AdvanceClock ctx w = Returns r"
  shows "taskCounter (timer (snd r)) = taskCounter (timer w)"
proof (cases "Pop ctx w")
  case (Returns q)
  note pop = Pop_counter [OF Returns]
  show ?thesis
  proof (cases "fst q")
    case None
    with Returns assms pop show ?thesis
      by (auto simp: AdvanceClock_def AdvanceClock_run_def)
  next
    case (Some x)
    show ?thesis
    proof (cases x)
      case (TaskListPtr v)
      with Returns Some assms have "snd (drain ctx v (snd q)) = Returns (snd r)"
        by (auto simp: AdvanceClock_def AdvanceClock_run_def split: outcome.splits)
      from drain_counter [OF this] pop show ?thesis by simp
    next
      case Foreign
      with Returns Some assms show ?thesis by (simp add: AdvanceClock_def AdvanceClock_run_def)
    qed
  qed
next
  case (Panics p)
  then show ?thesis by (simp add: Pop_no_panic)
next
  case Blocks
  with assms show ?thesis by (simp add: AdvanceClock_def AdvanceClock_run_def)
qed

lemma call_step_Size: "call_step c w = Some w' \<Longrightarrow> Size w' = Size w"
  by (cases c)
     (auto simp: Size_def Add_counter cancel_def Shutdown_def wait_until_def
        split: outcome.splits dest: AdvanceClock_counter)

lemma calls_Size: "calls cs w = Some w' \<Longrightarrow> Size w' = Size w"
  by (induction cs arbitrary: w) (auto split: option.splits dest: call_step_Size)

lemma Size_always_zero:
  "calls cs (NewSystemTimer tk n now) = Some w' \<Longrightarrow> Size w' = 0"
  by (drule calls_Size) (simp add: Size_def NewSystemTimer_def Let_def)

text \<open>
  Claim C3 (\<^verbatim>\<open>Size()\<close> is the number of submitted entries minus the executed and the
  cancelled ones; each submission increments the counter) fails on the code.  On a
  fresh timer (tick 1 ms, 20 slots) a task with delay 5 ms is submitted: its entry sits
  in the bucket of slot 5, not cancelled, nothing has run, and \<^verbatim>\<open>Size()\<close> is 0.
\<close>

theorem Size_zero_with_pending_entry:
  "case Add \<lparr>delayMs = 5 * Millisecond, action = 7\<rparr> (NewSystemTimer Millisecond 20 0) of
     None \<Rightarrow> False
   | Some w \<Rightarrow>
       root (taskLists w 5) = [0] \<and> goroutines w = [] \<and> \<not> cancelled (taskEntries w 0) \<and>
       Size w = 0"
  by code_simp

section \<open>Shutdown\<close>

lemma Shutdown_changes_nothing: "Shutdown w = w"
  by (simp add: Shutdown_def)

text \<open>
  Claim C7 (\<^verbatim>\<open>Shutdown()\<close> unblocks the wake queue's wait and marks the service closed;
  the entries pending at that moment are dropped and never executed) fails on the
  code: the body of \<^verbatim>\<open>Shutdown\<close> is empty and the struct has no field that could
  record a closed state.  A task with delay 5 ms is pending; after \<^verbatim>\<open>Shutdown()\<close> its
  bucket is still queued and still holds the entry, and \<^verbatim>\<open>AdvanceClock\<close> with the
  signal at 5 ms starts its action.
\<close>

theorem pending_entry_runs_after_Shutdown:
  "case Add \<lparr>delayMs = 5 * Millisecond, action = 7\<rparr> (NewSystemTimer Millisecond 20 0) of
     None \<Rightarrow> False
   | Some w \<Rightarrow>
       goroutines w = [] \<and>
       delayQueue (timer (Shutdown w)) = [(5 * Millisecond, TaskListPtr 5)] \<and>
       root (taskLists (Shutdown w) 5) = [0] \<and>
       (case AdvanceClock (Some (5 * Millisecond)) (Shutdown w) of
          Returns r \<Rightarrow> fst r \<and> goroutines (snd r) = [7]
        | Panics p \<Rightarrow> False
        | Blocks \<Rightarrow> False)"
  by code_simp

end
